theory Spec2Isabelle
  imports Main
begin

section \<open>Board and cells\<close>

text \<open>
  The board is the JavaScript array \<open>squares\<close>. A cell holds \<open>null\<close>, \<open>'X'\<close> or \<open>'O'\<close>;
  reading past the end of an array (or reading a slot that an out-of-range write skipped)
  gives \<open>undefined\<close>, which is falsy like \<open>null\<close> but is not \<open>=== null\<close>.
\<close>

datatype player = PlayerX | PlayerO

datatype cell = Null | Hole | Mark player

text \<open>\<open>squares[i]\<close>: \<open>undefined\<close> when \<open>i\<close> is past the end.\<close>

definition sq_at :: "cell list \<Rightarrow> nat \<Rightarrow> cell" where
  "sq_at sq i = (if i < length sq then sq ! i else Hole)"

text \<open>JavaScript truthiness of a cell: only the strings \<open>'X'\<close> and \<open>'O'\<close> are truthy.\<close>

fun truthy :: "cell \<Rightarrow> bool" where
  "truthy (Mark p) = True"
| "truthy Null = False"
| "truthy Hole = False"

text \<open>\<open>next[i] = v\<close>: a write past the end extends the array, leaving empty slots.\<close>

definition js_set :: "cell list \<Rightarrow> nat \<Rightarrow> cell \<Rightarrow> cell list" where
  "js_set sq i v =
     (if i < length sq then sq[i := v]
      else sq @ replicate (i - length sq) Hole @ [v])"

section \<open>calculateWinner\<close>

type_synonym line = "nat \<times> nat \<times> nat"

record winner_info =
  winner :: cell
  line :: "line option"

definition lines :: "line list" where
  "lines = [(0, 1, 2), (3, 4, 5), (6, 7, 8),
            (0, 3, 6), (1, 4, 7), (2, 5, 8),
            (0, 4, 8), (2, 4, 6)]"

text \<open>The test of the loop body, for one line \<open>[a, b, c]\<close>.\<close>

fun completed :: "cell list \<Rightarrow> line \<Rightarrow> bool" where
  "completed sq (a, b, c) =
     (truthy (sq_at sq a) \<and> sq_at sq a = sq_at sq b \<and> sq_at sq a = sq_at sq c)"

text \<open>The \<open>for (const [a, b, c] of lines)\<close> loop, with its early return.\<close>

fun scan_lines :: "cell list \<Rightarrow> line list \<Rightarrow> winner_info" where
  "scan_lines sq [] = \<lparr>winner = Null, line = None\<rparr>"
| "scan_lines sq ((a, b, c) # ls) =
     (if truthy (sq_at sq a) \<and> sq_at sq a = sq_at sq b \<and> sq_at sq a = sq_at sq c
      then \<lparr>winner = sq_at sq a, line = Some (a, b, c)\<rparr>
      else scan_lines sq ls)"

definition calculateWinner :: "cell list \<Rightarrow> winner_info" where
  "calculateWinner sq = scan_lines sq lines"

section \<open>Derived game status in App\<close>

text \<open>\<open>isDraw = !winner && squares.every((s) => s !== null)\<close>.\<close>

definition isDraw :: "cell list \<Rightarrow> bool" where
  "isDraw sq = (\<not> truthy (winner (calculateWinner sq)) \<and> list_all (\<lambda>s. s \<noteq> Null) sq)"

text \<open>\<open>gameOver = Boolean(winner) || isDraw\<close>.\<close>

definition gameOver :: "cell list \<Rightarrow> bool" where
  "gameOver sq = (truthy (winner (calculateWinner sq)) \<or> isDraw sq)"

text \<open>
  The game result as App derives it on every render and as StatusBar reads it:
  a winner with its line if \<open>calculateWinner\<close> found one, else a draw if \<open>isDraw\<close>,
  else the game is in progress.
\<close>

datatype result = InProgress | Win player line | Draw

definition evaluate :: "cell list \<Rightarrow> result" where
  "evaluate sq =
     (case (winner (calculateWinner sq), line (calculateWinner sq)) of
        (Mark p, Some l) \<Rightarrow> Win p l
      | _ \<Rightarrow> if isDraw sq then Draw else InProgress)"

section \<open>Application state\<close>

text \<open>
  The scores object \<open>{X, O, draws}\<close> (the fields \<open>X\<close> and \<open>O\<close> are named \<open>scoreX\<close> and
  \<open>scoreO\<close> here). The counters are JavaScript numbers, that is doubles; the model
  holds the integer-valued ones.
\<close>

record scores_obj =
  scoreX :: int
  scoreO :: int
  draws :: int

text \<open>
  The state of the App component: the four \<open>useState\<close> cells, the ref
  \<open>firstConclusionLogged\<close>, and whether the 200 ms timeout set by the score effect is
  still pending. At most one such timeout is pending at a time: the cleanup of the
  effect clears the one of the previous run before the effect runs again.
\<close>

record app =
  squares :: "cell list"
  xIsNext :: bool
  scores :: scores_obj
  theme :: string
  firstConclusionLogged :: bool
  timer :: bool

definition currentPlayer :: "app \<Rightarrow> player" where
  "currentPlayer s = (if xIsNext s then PlayerX else PlayerO)"

definition handlePlay :: "nat \<Rightarrow> app \<Rightarrow> app" where
  "handlePlay i s =
     (if gameOver (squares s) \<or> truthy (sq_at (squares s) i) then s
      else s\<lparr>squares := js_set (squares s) i (Mark (currentPlayer s)),
              xIsNext := \<not> xIsNext s\<rparr>)"

definition handleReset :: "app \<Rightarrow> app" where
  "handleReset s = s\<lparr>squares := replicate 9 Null, xIsNext := True\<rparr>"

text \<open>The updater \<open>(t) => (t === "light" ? "dark" : "light")\<close>.\<close>

definition toggle :: "string \<Rightarrow> string" where
  "toggle t = (if t = ''light'' then ''dark'' else ''light'')"

definition toggleTheme :: "app \<Rightarrow> app" where
  "toggleTheme s = s\<lparr>theme := toggle (theme s)\<rparr>"

subsection \<open>The score effect\<close>

text \<open>
  \<open>n + 1\<close> on an integer-valued double, rounded to the nearest double with ties to the
  even mantissa. Up to \<open>2^53 = 9007199254740992\<close> in absolute value the sum is exact.
  Between \<open>2^53\<close> and \<open>2^54 = 18014398509481984\<close> the doubles are the even integers, and
  \<open>n + 1\<close> lies half way between \<open>n\<close> and \<open>n + 2\<close>: the one with the even half is taken.
  Beyond \<open>2^54\<close> the doubles are at least 4 apart and the sum rounds back to \<open>n\<close>.
\<close>

definition js_add_one :: "int \<Rightarrow> int" where
  "js_add_one n =
     (if - 9007199254740992 \<le> n \<and> n < 9007199254740992 then n + 1
      else if - 18014398509481984 \<le> n \<and> n < 18014398509481984
           then (if even (n div 2) then n else n + 2)
      else n)"

text \<open>The updater passed to \<open>setScores\<close>, with \<open>winner\<close> and \<open>isDraw\<close> of the render.\<close>

definition recordResult :: "cell \<Rightarrow> bool \<Rightarrow> scores_obj \<Rightarrow> scores_obj" where
  "recordResult w d prev =
     (if w = Mark PlayerX then prev\<lparr>scoreX := js_add_one (scoreX prev)\<rparr>
      else if w = Mark PlayerO then prev\<lparr>scoreO := js_add_one (scoreO prev)\<rparr>
      else if d then prev\<lparr>draws := js_add_one (draws prev)\<rparr>
      else prev)"

text \<open>
  The body of the effect: it returns early when the game is not over or the flag is
  set; otherwise it sets the flag, updates the scores and starts the timeout.
\<close>

definition scoreEffect :: "app \<Rightarrow> app" where
  "scoreEffect s =
     (if \<not> gameOver (squares s) \<or> firstConclusionLogged s then s
      else s\<lparr>scores := recordResult (winner (calculateWinner (squares s)))
                          (isDraw (squares s)) (scores s),
              firstConclusionLogged := True,
              timer := True\<rparr>)"

text \<open>
  The dependency array \<open>[gameOver, winner, isDraw, setScores]\<close>; \<open>setScores\<close> is the
  same function on every render.
\<close>

definition deps :: "cell list \<Rightarrow> bool \<times> cell \<times> bool" where
  "deps sq = (gameOver sq, winner (calculateWinner sq), isDraw sq)"

text \<open>
  The render that follows a state update. \<open>old\<close> is the board of the previous render.
  When a dependency changed, the cleanup of the previous run (\<open>clearTimeout\<close>) runs and
  then the effect; otherwise the effect is skipped.
\<close>

definition commit :: "cell list \<Rightarrow> app \<Rightarrow> app" where
  "commit old s =
     (if deps (squares s) = deps old then s
      else scoreEffect (s\<lparr>timer := False\<rparr>))"

text \<open>The callback of the timeout; it runs only while the timeout is pending.\<close>

definition timerFire :: "app \<Rightarrow> app" where
  "timerFire s =
     (if timer s then s\<lparr>firstConclusionLogged := False, timer := False\<rparr> else s)"

text \<open>
  What can happen to the mounted component: a cell is activated, New Game is pressed,
  the theme button is pressed, the pending timeout expires, or the component renders
  again with nothing changed.
\<close>

datatype event = Play nat | Reset | ToggleTheme | TimerFire | Rerender

fun step :: "event \<Rightarrow> app \<Rightarrow> app" where
  "step (Play i) s = commit (squares s) (handlePlay i s)"
| "step Reset s = commit (squares s) (handleReset s)"
| "step ToggleTheme s = commit (squares s) (toggleTheme s)"
| "step TimerFire s = timerFire s"
| "step Rerender s = commit (squares s) s"

fun run :: "event list \<Rightarrow> app \<Rightarrow> app" where
  "run [] s = s"
| "run (e # es) s = run es (step e s)"

text \<open>
  The first render: an empty board, X to move, scores and theme as \<open>useLocalStorage\<close>
  delivered them; the effect runs once and returns early (the game is not over).
\<close>

definition mount :: "scores_obj \<Rightarrow> string \<Rightarrow> app" where
  "mount sc th =
     scoreEffect \<lparr>squares = replicate 9 Null, xIsNext = True, scores = sc, theme = th,
                  firstConclusionLogged = False, timer = False\<rparr>"

section \<open>Legal play from a fresh game\<close>

text \<open>A fresh game, as \<open>useState\<close> creates it at the start and \<open>handleReset\<close> after.\<close>

definition fresh :: "app \<Rightarrow> bool" where
  "fresh s = (squares s = replicate 9 Null \<and> xIsNext s)"

text \<open>A legal move: the game is in progress and the target cell of the board is empty.\<close>

definition legal :: "nat \<Rightarrow> app \<Rightarrow> bool" where
  "legal i s =
     (evaluate (squares s) = InProgress \<and> i < length (squares s) \<and> squares s ! i = Null)"

text \<open>Playing a list of moves, each of which has to be legal when it is made.\<close>

fun play_moves :: "nat list \<Rightarrow> app \<Rightarrow> app option" where
  "play_moves [] s = Some s"
| "play_moves (i # js) s = (if legal i s then play_moves js (step (Play i) s) else None)"

section \<open>useLocalStorage\<close>

text \<open>
  Values held by \<open>useLocalStorage\<close> are whatever \<open>JSON.parse\<close> returns. \<open>JSON.parse\<close>,
  \<open>JSON.stringify\<close> and \<open>window.localStorage\<close> belong to the platform and are
  parameters here: \<open>parse\<close> gives \<open>None\<close> where \<open>JSON.parse\<close> throws, \<open>setItem\<close>
  gives \<open>None\<close> where \<open>localStorage.setItem\<close> throws.
\<close>

datatype json =
  JNull | JBool bool | JNum int | JStr string | JArr "json list" | JObj "(string \<times> json) list"

text \<open>What \<open>window.localStorage.getItem(key)\<close> does: it throws, returns \<open>null\<close>, or a string.\<close>

datatype read_result = ReadThrows | ReadNull | ReadString string

text \<open>
  The initialiser of the \<open>useState\<close> in \<open>useLocalStorage\<close>:
  \<open>ls ? JSON.parse(ls) : initialValue\<close> inside \<open>try\<close>; the empty string is falsy.
\<close>

definition useLocalStorage_init :: "(string \<Rightarrow> json option) \<Rightarrow> read_result \<Rightarrow> json \<Rightarrow> json" where
  "useLocalStorage_init parse r initialValue =
     (case r of
        ReadThrows \<Rightarrow> initialValue
      | ReadNull \<Rightarrow> initialValue
      | ReadString ls \<Rightarrow>
          (if ls = [] then initialValue
           else (case parse ls of None \<Rightarrow> initialValue | Some v \<Rightarrow> v)))"

text \<open>
  The effect of \<open>useLocalStorage\<close>: \<open>setItem(key, JSON.stringify(value))\<close> inside \<open>try\<close>,
  with an empty \<open>catch\<close>.
\<close>

definition writeEffect ::
  "(json \<Rightarrow> string) \<Rightarrow> (string \<Rightarrow> string \<Rightarrow> 'st \<Rightarrow> 'st option) \<Rightarrow> string \<Rightarrow> json \<Rightarrow> 'st \<Rightarrow> 'st" where
  "writeEffect stringify setItem key v st =
     (case setItem key (stringify v) st of None \<Rightarrow> st | Some st' \<Rightarrow> st')"

text \<open>
  \<open>setValue(v)\<close> followed by the render it causes: the state holds \<open>v\<close>, then the effect
  writes it. The pair is the in-memory value and the store.
\<close>

definition setValue ::
  "(json \<Rightarrow> string) \<Rightarrow> (string \<Rightarrow> string \<Rightarrow> 'st \<Rightarrow> 'st option) \<Rightarrow> string \<Rightarrow> json
   \<Rightarrow> json \<times> 'st \<Rightarrow> json \<times> 'st" where
  "setValue stringify setItem key v m = (v, writeEffect stringify setItem key v (snd m))"

text \<open>The two uses in App: the keys and the initial values.\<close>

definition initialScores :: json where
  "initialScores = JObj [(''X'', JNum 0), (''O'', JNum 0), (''draws'', JNum 0)]"

definition initialTheme :: json where
  "initialTheme = JStr ''light''"

text \<open>
  A reader that agrees with \<open>JSON.parse\<close> on the text \<open>null\<close> and rejects every other
  text; it stands for \<open>JSON.parse\<close> where only that text is read.
\<close>

definition parse_null_only :: "string \<Rightarrow> json option" where
  "parse_null_only t = (if t = ''null'' then Some JNull else None)"

text \<open>A store that refuses every write (quota exceeded, private mode).\<close>

definition setItem_fails :: "string \<Rightarrow> string \<Rightarrow> (string \<times> string) list \<Rightarrow> (string \<times> string) list option" where
  "setItem_fails k v st = None"

section \<open>Sample games\<close>

text \<open>X plays 0, 1, 2 and O plays 4, 3: X completes the top row.\<close>

definition x_wins_game :: "event list" where
  "x_wins_game = [Play 0, Play 4, Play 1, Play 3, Play 2]"

definition zero_scores :: scores_obj where
  "zero_scores = \<lparr>scoreX = 0, scoreO = 0, draws = 0\<rparr>"

section \<open>The scan of the eight lines\<close>

lemma scan_lines_Cons:
  "scan_lines sq (l # ls) =
     (if completed sq l then \<lparr>winner = sq_at sq (fst l), line = Some l\<rparr> else scan_lines sq ls)"
  by (cases l) auto

lemma completed_Mark: "completed sq l \<Longrightarrow> \<exists>p. sq_at sq (fst l) = Mark p"
  by (cases l; cases "sq_at sq (fst l)") auto

lemma scan_lines_none:
  "\<forall>l\<in>set ls. \<not> completed sq l \<Longrightarrow> scan_lines sq ls = \<lparr>winner = Null, line = None\<rparr>"
  by (induction ls) (simp_all add: scan_lines_Cons del: scan_lines.simps(2))

lemma scan_lines_first:
  "k < length ls \<Longrightarrow> completed sq (ls ! k) \<Longrightarrow> \<forall>j<k. \<not> completed sq (ls ! j)
   \<Longrightarrow> scan_lines sq ls = \<lparr>winner = sq_at sq (fst (ls ! k)), line = Some (ls ! k)\<rparr>"
proof (induction ls arbitrary: k)
  case Nil
  then show ?case by simp
next
  case (Cons l ls)
  show ?case
  proof (cases k)
    case 0
    with Cons.prems show ?thesis by (simp add: scan_lines_Cons del: scan_lines.simps(2))
  next
    case (Suc k')
    from Cons.prems Suc have "\<not> completed sq l" by auto
    moreover have "scan_lines sq ls = \<lparr>winner = sq_at sq (fst (ls ! k')), line = Some (ls ! k')\<rparr>"
      using Cons.prems Suc by (intro Cons.IH) auto
    ultimately show ?thesis using Suc by (simp add: scan_lines_Cons del: scan_lines.simps(2))
  qed
qed

lemma scan_lines_cases:
  "scan_lines sq ls = \<lparr>winner = Null, line = None\<rparr>
   \<or> (\<exists>l p. scan_lines sq ls = \<lparr>winner = Mark p, line = Some l\<rparr>)"
proof (induction ls)
  case Nil
  then show ?case by simp
next
  case (Cons l ls)
  show ?case
  proof (cases "completed sq l")
    case True
    then obtain p where "sq_at sq (fst l) = Mark p" using completed_Mark by blast
    with True have "scan_lines sq (l # ls) = \<lparr>winner = Mark p, line = Some l\<rparr>"
      by (simp add: scan_lines_Cons del: scan_lines.simps(2))
    then show ?thesis by blast
  next
    case False
    with Cons.IH show ?thesis by (simp add: scan_lines_Cons del: scan_lines.simps(2))
  qed
qed

lemma evaluate_gameOver: "(evaluate sq \<noteq> InProgress) = gameOver sq"
  using scan_lines_cases [of sq lines]
  by (auto simp: evaluate_def gameOver_def calculateWinner_def isDraw_def)

lemma evaluate_Win:
  "calculateWinner sq = \<lparr>winner = Mark p, line = Some l\<rparr> \<Longrightarrow> evaluate sq = Win p l"
  by (simp add: evaluate_def)

text \<open>
  C3. Take a board on which some line of the scan order is completed (its three cells
  are identical and hold a symbol), say with symbol \<open>S\<close>, and on which no earlier line of
  the scan order is completed by a different symbol. Then \<open>calculateWinner\<close> returns
  the first completed line of the scan order together with \<open>S\<close>, and the derived result
  is a win of \<open>S\<close> on that line.
\<close>

theorem first_completed_line_wins:
  assumes "i < length lines"
    and "completed sq (lines ! i)"
    and "sq_at sq (fst (lines ! i)) = Mark S"
    and "\<forall>j<i. completed sq (lines ! j) \<longrightarrow> sq_at sq (fst (lines ! j)) = Mark S"
  shows "\<exists>k\<le>i. completed sq (lines ! k) \<and> (\<forall>j<k. \<not> completed sq (lines ! j))
           \<and> calculateWinner sq = \<lparr>winner = Mark S, line = Some (lines ! k)\<rparr>
           \<and> evaluate sq = Win S (lines ! k)"
proof -
  define k where "k = (LEAST n. completed sq (lines ! n))"
  have k: "completed sq (lines ! k)"
    unfolding k_def using assms(2) by (rule LeastI)
  have ki: "k \<le> i"
    unfolding k_def using assms(2) by (rule Least_le)
  have first: "\<forall>j<k. \<not> completed sq (lines ! j)"
    unfolding k_def using not_less_Least by blast
  have sym: "sq_at sq (fst (lines ! k)) = Mark S"
  proof (cases "k = i")
    case True
    with assms(3) show ?thesis by simp
  next
    case False
    with ki have "k < i" by simp
    with assms(4) k show ?thesis by blast
  qed
  have "k < length lines" using ki assms(1) by simp
  then have "scan_lines sq lines = \<lparr>winner = sq_at sq (fst (lines ! k)), line = Some (lines ! k)\<rparr>"
    using k first by (rule scan_lines_first)
  with sym have cw: "calculateWinner sq = \<lparr>winner = Mark S, line = Some (lines ! k)\<rparr>"
    by (simp add: calculateWinner_def)
  from cw have "evaluate sq = Win S (lines ! k)" by (rule evaluate_Win)
  with k ki first cw show ?thesis by blast
qed

theorem first_completed_line_wins_witness:
  "calculateWinner [Mark PlayerO, Mark PlayerX, Mark PlayerX,
                    Mark PlayerO, Mark PlayerX, Null,
                    Mark PlayerO, Null, Null] = \<lparr>winner = Mark PlayerO, line = Some (0, 3, 6)\<rparr>
   \<and> evaluate [Mark PlayerO, Mark PlayerX, Mark PlayerX,
                Mark PlayerO, Mark PlayerX, Null,
                Mark PlayerO, Null, Null] = Win PlayerO (0, 3, 6)"
proof -
  let ?sq = "[Mark PlayerO, Mark PlayerX, Mark PlayerX,
              Mark PlayerO, Mark PlayerX, Null,
              Mark PlayerO, Null, Null]"
  have rows: "\<not> completed ?sq (lines ! 0)" "\<not> completed ?sq (lines ! 1)"
    "\<not> completed ?sq (lines ! 2)"
    by (simp_all add: lines_def sq_at_def)
  have 1: "3 < length lines" by (simp add: lines_def)
  have 2: "completed ?sq (lines ! 3)" by (simp add: lines_def sq_at_def)
  have 3: "sq_at ?sq (fst (lines ! 3)) = Mark PlayerO" by (simp add: lines_def sq_at_def)
  have 4: "\<forall>j<3. completed ?sq (lines ! j) \<longrightarrow> sq_at ?sq (fst (lines ! j)) = Mark PlayerO"
  proof (intro allI impI)
    fix j :: nat
    assume "j < 3" and c: "completed ?sq (lines ! j)"
    then have "j = 0 \<or> j = 1 \<or> j = 2" by arith
    with rows c show "sq_at ?sq (fst (lines ! j)) = Mark PlayerO" by blast
  qed
  from first_completed_line_wins [OF 1 2 3 4]
  obtain k where k: "k \<le> 3" "completed ?sq (lines ! k)"
    "calculateWinner ?sq = \<lparr>winner = Mark PlayerO, line = Some (lines ! k)\<rparr>"
    "evaluate ?sq = Win PlayerO (lines ! k)"
    by blast
  from k(1) have "k = 0 \<or> k = 1 \<or> k = 2 \<or> k = 3" by arith
  with rows k(2) have "k = 3" by blast
  with k(3,4) show ?thesis by (simp add: lines_def)
qed

text \<open>
  C4. On a board with no completed line, the derived result is a draw when every cell
  is non-empty, and the game is in progress when at least one cell is empty.
\<close>

theorem no_line_draw_or_in_progress:
  assumes "\<forall>l\<in>set lines. \<not> completed sq l"
  shows "(list_all (\<lambda>c. c \<noteq> Null) sq \<longrightarrow> evaluate sq = Draw)
       \<and> (Null \<in> set sq \<longrightarrow> evaluate sq = InProgress)"
proof -
  from assms have "calculateWinner sq = \<lparr>winner = Null, line = None\<rparr>"
    unfolding calculateWinner_def by (rule scan_lines_none)
  then show ?thesis
    by (auto simp: evaluate_def isDraw_def list_all_iff)
qed

theorem no_line_draw_or_in_progress_witness:
  "evaluate [Mark PlayerX, Mark PlayerO, Mark PlayerX,
             Mark PlayerO, Mark PlayerX, Mark PlayerO,
             Mark PlayerO, Mark PlayerX, Mark PlayerO] = Draw
   \<and> evaluate [Mark PlayerX, Mark PlayerO, Null,
                Null, Null, Null,
                Null, Null, Null] = InProgress"
proof -
  let ?full = "[Mark PlayerX, Mark PlayerO, Mark PlayerX,
                Mark PlayerO, Mark PlayerX, Mark PlayerO,
                Mark PlayerO, Mark PlayerX, Mark PlayerO]"
  let ?part = "[Mark PlayerX, Mark PlayerO, Null, Null, Null, Null, Null, Null, Null]"
  have f: "\<forall>l\<in>set lines. \<not> completed ?full l" by (simp add: lines_def sq_at_def)
  have p: "\<forall>l\<in>set lines. \<not> completed ?part l" by (simp add: lines_def sq_at_def)
  have "list_all (\<lambda>c. c \<noteq> Null) ?full" by simp
  moreover have "Null \<in> set ?part" by simp
  ultimately show ?thesis
    using no_line_draw_or_in_progress [OF f] no_line_draw_or_in_progress [OF p] by blast
qed

section \<open>Moves\<close>

lemma commit_same: "commit (squares s) s = s"
  by (simp add: commit_def)

lemma step_rejected:
  assumes "handlePlay i s = s"
  shows "step (Play i) s = s"
proof -
  have "step (Play i) s = commit (squares s) (handlePlay i s)" by simp
  also have "\<dots> = commit (squares s) s" by (simp only: assms)
  also have "\<dots> = s" by (rule commit_same)
  finally show ?thesis .
qed

text \<open>
  C5. For every state and every index, \<open>handlePlay\<close> changes nothing when the derived
  result is not in progress or the target cell already holds a symbol: the board, the
  turn and everything else in the state are as before, also after the render that
  follows, and no error is raised (the handler just returns).
\<close>

theorem illegal_move_is_noop:
  assumes "evaluate (squares s) \<noteq> InProgress \<or> (\<exists>p. sq_at (squares s) i = Mark p)"
  shows "handlePlay i s = s \<and> step (Play i) s = s"
proof -
  from assms have "gameOver (squares s) \<or> truthy (sq_at (squares s) i)"
    using evaluate_gameOver [of "squares s"] by auto
  then have "handlePlay i s = s" by (simp add: handlePlay_def)
  then show ?thesis using step_rejected by blast
qed

theorem illegal_move_is_noop_witness:
  "evaluate (squares (run x_wins_game (mount zero_scores ''light''))) \<noteq> InProgress
   \<and> step (Play 5) (run x_wins_game (mount zero_scores ''light''))
       = run x_wins_game (mount zero_scores ''light'')
   \<and> sq_at (squares (step (Play 0) (mount zero_scores ''light''))) 0 = Mark PlayerX
   \<and> step (Play 0) (step (Play 0) (mount zero_scores ''light''))
       = step (Play 0) (mount zero_scores ''light'')"
proof -
  let ?over = "run x_wins_game (mount zero_scores ''light'')"
  let ?one = "step (Play 0) (mount zero_scores ''light'')"
  have 1: "evaluate (squares ?over) \<noteq> InProgress" by code_simp
  have 2: "sq_at (squares ?one) 0 = Mark PlayerX" by code_simp
  from 1 have "step (Play 5) ?over = ?over"
    using illegal_move_is_noop [of ?over 5] by blast
  moreover from 2 have "step (Play 0) ?one = ?one"
    using illegal_move_is_noop [of ?one 0] by blast
  ultimately show ?thesis using 1 2 by blast
qed

text \<open>
  C10. A legal move (the derived result is in progress and the target cell is empty)
  writes the symbol of the current player into the target cell and flips the turn; the
  board keeps its length, every other cell keeps its value, and the handler changes
  neither the scores nor the theme (nor the flag and the timeout of the score effect).
\<close>

theorem legal_move_changes_one_cell:
  assumes "legal i s"
  shows "handlePlay i s = s\<lparr>squares := (squares s)[i := Mark (currentPlayer s)],
                             xIsNext := \<not> xIsNext s\<rparr>
       \<and> length (squares (handlePlay i s)) = length (squares s)
       \<and> squares (handlePlay i s) ! i = Mark (currentPlayer s)
       \<and> (\<forall>j. j \<noteq> i \<longrightarrow> squares (handlePlay i s) ! j = squares s ! j)
       \<and> scores (handlePlay i s) = scores s \<and> theme (handlePlay i s) = theme s
       \<and> firstConclusionLogged (handlePlay i s) = firstConclusionLogged s
       \<and> timer (handlePlay i s) = timer s"
proof -
  from assms have g: "\<not> gameOver (squares s)"
    using evaluate_gameOver [of "squares s"] by (simp add: legal_def)
  from assms have i: "i < length (squares s)" and n: "squares s ! i = Null"
    by (simp_all add: legal_def)
  from i n have "\<not> truthy (sq_at (squares s) i)" by (simp add: sq_at_def)
  with g i have "handlePlay i s = s\<lparr>squares := (squares s)[i := Mark (currentPlayer s)],
                             xIsNext := \<not> xIsNext s\<rparr>"
    by (simp add: handlePlay_def js_set_def)
  with i show ?thesis by simp
qed

theorem legal_move_changes_one_cell_witness:
  "legal 4 (step (Play 0) (mount zero_scores ''light''))
   \<and> squares (handlePlay 4 (step (Play 0) (mount zero_scores ''light'')))
       = [Mark PlayerX, Null, Null, Null, Mark PlayerO, Null, Null, Null, Null]
   \<and> scores (handlePlay 4 (step (Play 0) (mount zero_scores ''light''))) = zero_scores
   \<and> theme (handlePlay 4 (step (Play 0) (mount zero_scores ''light''))) = ''light''"
proof -
  let ?s = "step (Play 0) (mount zero_scores ''light'')"
  have l: "legal 4 ?s" by code_simp
  have sq: "squares ?s = [Mark PlayerX, Null, Null, Null, Null, Null, Null, Null, Null]"
    by code_simp
  have p: "currentPlayer ?s = PlayerO" by code_simp
  have sc: "scores ?s = zero_scores" by code_simp
  have th: "theme ?s = ''light''" by code_simp
  from legal_move_changes_one_cell [OF l]
  have "handlePlay 4 ?s = ?s\<lparr>squares := (squares ?s)[4 := Mark (currentPlayer ?s)],
                              xIsNext := \<not> xIsNext ?s\<rparr>"
    and "scores (handlePlay 4 ?s) = scores ?s" and "theme (handlePlay 4 ?s) = theme ?s"
    by blast+
  then have "squares (handlePlay 4 ?s) = (squares ?s)[4 := Mark (currentPlayer ?s)]"
    and "scores (handlePlay 4 ?s) = zero_scores" and "theme (handlePlay 4 ?s) = ''light''"
    using sc th by simp_all
  with l show ?thesis unfolding sq p by simp
qed

section \<open>Reset\<close>

lemma fresh_board_in_progress: "\<not> gameOver (replicate 9 Null)"
  by (simp add: gameOver_def isDraw_def calculateWinner_def lines_def sq_at_def
      numeral_eq_Suc)

text \<open>
  C7. From every state, New Game gives a board of nine empty cells with X to move and
  leaves the scores and the theme as they were.
\<close>

theorem reset_fresh_board_keeps_scores_theme:
  "squares (step Reset s) = replicate 9 Null \<and> xIsNext (step Reset s)
   \<and> scores (step Reset s) = scores s \<and> theme (step Reset s) = theme s
   \<and> handleReset s = s\<lparr>squares := replicate 9 Null, xIsNext := True\<rparr>"
  using fresh_board_in_progress
  by (simp add: commit_def handleReset_def scoreEffect_def)

theorem reset_fresh_board_keeps_scores_theme_witness:
  "squares (step Reset (run x_wins_game (mount zero_scores ''dark''))) = replicate 9 Null
   \<and> xIsNext (step Reset (run x_wins_game (mount zero_scores ''dark'')))
   \<and> scores (step Reset (run x_wins_game (mount zero_scores ''dark'')))
       = \<lparr>scoreX = 1, scoreO = 0, draws = 0\<rparr>
   \<and> theme (step Reset (run x_wins_game (mount zero_scores ''dark''))) = ''dark''"
proof -
  let ?s = "run x_wins_game (mount zero_scores ''dark'')"
  have sc: "scores ?s = \<lparr>scoreX = 1, scoreO = 0, draws = 0\<rparr>" by code_simp
  have th: "theme ?s = ''dark''" by code_simp
  from reset_fresh_board_keeps_scores_theme [of ?s] show ?thesis
    unfolding sc th by blast
qed

section \<open>Turn alternation\<close>

lemma commit_board: "squares (commit old s) = squares s" "xIsNext (commit old s) = xIsNext s"
  by (simp_all add: commit_def scoreEffect_def)

lemma count_list_update:
  "i < length xs \<Longrightarrow> xs ! i \<noteq> y \<Longrightarrow>
   count_list (xs[i := v]) y = count_list xs y + (if v = y then 1 else 0)"
proof (induction xs arbitrary: i)
  case Nil
  then show ?case by simp
next
  case (Cons x xs)
  then show ?case by (cases i) auto
qed

lemma count_list_replicate_other: "c \<noteq> y \<Longrightarrow> count_list (replicate n c) y = 0"
  by (induction n) auto

lemma legal_step:
  assumes "legal i s"
  shows "squares (step (Play i) s) = (squares s)[i := Mark (currentPlayer s)]"
    and "xIsNext (step (Play i) s) = (\<not> xIsNext s)"
proof -
  from assms have g: "\<not> gameOver (squares s)"
    using evaluate_gameOver [of "squares s"] by (simp add: legal_def)
  from assms have i: "i < length (squares s)" and n: "squares s ! i = Null"
    by (simp_all add: legal_def)
  from i n have "\<not> truthy (sq_at (squares s) i)" by (simp add: sq_at_def)
  with g i have h: "handlePlay i s = s\<lparr>squares := (squares s)[i := Mark (currentPlayer s)],
                             xIsNext := \<not> xIsNext s\<rparr>"
    by (simp add: handlePlay_def js_set_def)
  show "squares (step (Play i) s) = (squares s)[i := Mark (currentPlayer s)]"
    by (simp add: commit_board h)
  show "xIsNext (step (Play i) s) = (\<not> xIsNext s)"
    by (simp add: commit_board h)
qed

lemma play_moves_counts:
  "play_moves ms s = Some s' \<Longrightarrow> xIsNext s = even n
   \<Longrightarrow> count_list (squares s) (Mark PlayerX) = (n + 1) div 2
   \<Longrightarrow> count_list (squares s) (Mark PlayerO) = n div 2
   \<Longrightarrow> xIsNext s' = even (n + length ms)
       \<and> count_list (squares s') (Mark PlayerX) = (n + length ms + 1) div 2
       \<and> count_list (squares s') (Mark PlayerO) = (n + length ms) div 2"
proof (induction ms arbitrary: s n)
  case Nil
  then show ?case by simp
next
  case (Cons i ms)
  from Cons.prems(1) have l: "legal i s" and rest: "play_moves ms (step (Play i) s) = Some s'"
    by (simp_all split: if_splits)
  let ?t = "step (Play i) s"
  from l have i: "i < length (squares s)" and nl: "squares s ! i = Null"
    by (simp_all add: legal_def)
  have sq: "squares ?t = (squares s)[i := Mark (currentPlayer s)]" using l by (rule legal_step)
  have t1: "xIsNext ?t = even (Suc n)" using legal_step(2) [OF l] Cons.prems(2) by (simp del: step.simps)
  have cx: "count_list (squares ?t) (Mark PlayerX) = (Suc n + 1) div 2"
    using Cons.prems(2,3) i nl by (simp add: sq count_list_update currentPlayer_def del: step.simps)
  have co: "count_list (squares ?t) (Mark PlayerO) = Suc n div 2"
    using Cons.prems(2,4) i nl by (simp add: sq count_list_update currentPlayer_def del: step.simps)
  from Cons.IH [OF rest t1 cx co] show ?case by (simp del: step.simps)
qed

text \<open>
  C6. In every state reached from a fresh game by \<open>N\<close> legal moves, X is to move
  exactly when \<open>N\<close> is even; the number of X cells minus the number of O cells is 0 or
  1; and O is to move when there are more X cells than O cells, X otherwise.
\<close>

theorem turn_alternates:
  assumes "fresh s0" and "play_moves ms s0 = Some s"
  shows "(xIsNext s \<longleftrightarrow> even (length ms))
       \<and> (currentPlayer s = PlayerX \<longleftrightarrow> even (length ms))
       \<and> int (count_list (squares s) (Mark PlayerX))
           - int (count_list (squares s) (Mark PlayerO)) \<in> {0, 1}
       \<and> (if count_list (squares s) (Mark PlayerX) > count_list (squares s) (Mark PlayerO)
           then currentPlayer s = PlayerO else currentPlayer s = PlayerX)"
proof -
  from assms(1) have "xIsNext s0 = even (0::nat)"
    and "count_list (squares s0) (Mark PlayerX) = (0 + 1) div 2"
    and "count_list (squares s0) (Mark PlayerO) = 0 div 2"
    by (simp_all add: fresh_def count_list_replicate_other)
  from play_moves_counts [OF assms(2) this]
  have t: "xIsNext s = even (length ms)"
    and x: "count_list (squares s) (Mark PlayerX) = (length ms + 1) div 2"
    and o: "count_list (squares s) (Mark PlayerO) = length ms div 2"
    by simp_all
  show ?thesis
  proof (cases "even (length ms)")
    case True
    then have "(length ms + 1) div 2 = length ms div 2" by auto
    with True t x o show ?thesis by (simp add: currentPlayer_def)
  next
    case False
    then have "(length ms + 1) div 2 = length ms div 2 + 1" by (auto elim: oddE)
    with False t x o show ?thesis by (simp add: currentPlayer_def)
  qed
qed

theorem turn_alternates_witness:
  "fresh (mount zero_scores ''light'')
   \<and> play_moves [0, 4, 1] (mount zero_scores ''light'')
       = Some \<lparr>squares = [Mark PlayerX, Mark PlayerX, Null, Null, Mark PlayerO,
                           Null, Null, Null, Null],
                xIsNext = False, scores = zero_scores, theme = ''light'',
                firstConclusionLogged = False, timer = False\<rparr>
   \<and> currentPlayer \<lparr>squares = [Mark PlayerX, Mark PlayerX, Null, Null, Mark PlayerO,
                                Null, Null, Null, Null],
                     xIsNext = False, scores = zero_scores, theme = ''light'',
                     firstConclusionLogged = False, timer = False\<rparr> = PlayerO"
proof -
  let ?s = "\<lparr>squares = [Mark PlayerX, Mark PlayerX, Null, Null, Mark PlayerO,
                         Null, Null, Null, Null],
              xIsNext = False, scores = zero_scores, theme = ''light'',
              firstConclusionLogged = False, timer = False\<rparr>"
  have f: "fresh (mount zero_scores ''light'')"
    by (simp add: fresh_def mount_def scoreEffect_def)
  have p: "play_moves [0, 4, 1] (mount zero_scores ''light'') = Some ?s"
    by code_simp
  have "count_list (squares ?s) (Mark PlayerX) > count_list (squares ?s) (Mark PlayerO)"
    by simp
  with turn_alternates [OF f p] have "currentPlayer ?s = PlayerO" by simp
  with f p show ?thesis by blast
qed

section \<open>Recording the conclusion of a game\<close>

text \<open>
  The increment is exact below \<open>2^53\<close>. The updater changes exactly one counter, or none
  when the game is not over.
\<close>

lemma js_add_one_exact:
  "- 9007199254740992 \<le> n \<Longrightarrow> n < 9007199254740992 \<Longrightarrow> js_add_one n = n + 1"
  by (simp add: js_add_one_def)

lemma js_add_one_at_limit:
  "js_add_one 9007199254740992 = 9007199254740992"
  "js_add_one 9007199254740994 = 9007199254740996"
  by (simp_all add: js_add_one_def)

lemma recordResult_one_counter:
  "recordResult w d prev = prev\<lparr>scoreX := js_add_one (scoreX prev)\<rparr> \<and> w = Mark PlayerX
   \<or> recordResult w d prev = prev\<lparr>scoreO := js_add_one (scoreO prev)\<rparr> \<and> w = Mark PlayerO
   \<or> recordResult w d prev = prev\<lparr>draws := js_add_one (draws prev)\<rparr> \<and> \<not> truthy w \<and> d
   \<or> recordResult w d prev = prev \<and> \<not> truthy w \<and> \<not> d"
proof (cases w)
  case (Mark p)
  then show ?thesis by (cases p) (simp_all add: recordResult_def)
qed (simp_all add: recordResult_def)


lemma concluded_state_reads_keep_scores:
  assumes "gameOver (squares s)" and "e \<noteq> Reset"
  shows "scores (step e s) = scores s \<and> squares (step e s) = squares s"
proof (cases e)
  case (Play i)
  from assms(1) have "handlePlay i s = s" by (simp add: handlePlay_def)
  then have "step (Play i) s = s" by (rule step_rejected)
  with Play show ?thesis by simp
next
  case Reset
  with assms(2) show ?thesis by simp
next
  case ToggleTheme
  then show ?thesis by (simp add: commit_def toggleTheme_def)
next
  case TimerFire
  then show ?thesis by (simp add: timerFire_def)
next
  case Rerender
  then show ?thesis by (simp add: commit_same)
qed

text \<open>
  When the timeout expires before New Game is pressed, the next game is recorded as
  well. With the flag set and no timeout pending, nothing is recorded any more.
\<close>

lemma stuck_flag_step:
  assumes "firstConclusionLogged s" and "\<not> timer s"
  shows "firstConclusionLogged (step e s) \<and> \<not> timer (step e s) \<and> scores (step e s) = scores s"
proof (cases e)
  case (Play i)
  with assms show ?thesis by (simp add: commit_def scoreEffect_def handlePlay_def)
next
  case Reset
  with assms show ?thesis by (simp add: commit_def scoreEffect_def handleReset_def)
next
  case ToggleTheme
  with assms show ?thesis by (simp add: commit_def scoreEffect_def toggleTheme_def)
next
  case TimerFire
  with assms show ?thesis by (simp add: timerFire_def)
next
  case Rerender
  with assms show ?thesis by (simp add: commit_def)
qed

lemma stuck_flag_run:
  "firstConclusionLogged s \<Longrightarrow> \<not> timer s \<Longrightarrow> scores (run es s) = scores s"
proof (induction es arbitrary: s)
  case Nil
  then show ?case by simp
next
  case (Cons e es)
  from stuck_flag_step [OF Cons.prems, of e]
  have "firstConclusionLogged (step e s)" and "\<not> timer (step e s)"
    and sc: "scores (step e s) = scores s"
    by blast+
  then have "scores (run es (step e s)) = scores (step e s)" by (intro Cons.IH)
  with sc show ?case by simp
qed

lemma delayed_reset_counts_second_win:
  "scores (run (x_wins_game @ TimerFire # Reset # x_wins_game) (mount zero_scores ''light''))
     = \<lparr>scoreX = 2, scoreO = 0, draws = 0\<rparr>"
  by code_simp

text \<open>
  C1. Each concluded game is to increment the counter of its result once, and after a
  reset the conclusion of the new game is to increment again, so that the counters
  count the concluded games. The flag that guards the increment is cleared only by the
  timeout of 200 ms, and the cleanup of the effect cancels that timeout when New Game is
  pressed before it expires. So: X wins on the top row (the X counter goes from 0 to 1),
  New Game is pressed at once, X wins on the top row again, and the X counter is still 1.
\<close>

theorem quick_reset_loses_second_win:
  "evaluate (squares (run x_wins_game (mount zero_scores ''light''))) = Win PlayerX (0, 1, 2)
   \<and> scores (run x_wins_game (mount zero_scores ''light''))
       = \<lparr>scoreX = 1, scoreO = 0, draws = 0\<rparr>
   \<and> evaluate (squares (run (x_wins_game @ Reset # x_wins_game) (mount zero_scores ''light'')))
       = Win PlayerX (0, 1, 2)
   \<and> scores (run (x_wins_game @ Reset # x_wins_game) (mount zero_scores ''light''))
       = \<lparr>scoreX = 1, scoreO = 0, draws = 0\<rparr>"
  by code_simp

section \<open>The flag of the score effect\<close>

lemma scoreEffect_flag: "firstConclusionLogged s \<Longrightarrow> firstConclusionLogged (scoreEffect s)"
  by (simp add: scoreEffect_def)










section \<open>Stored scores and theme\<close>

text \<open>
  C8, as the code has it. When reading the key throws, or the key is absent (or holds
  the empty string), or the stored text is not JSON, the state starts from the initial
  value App passes (the zero scores, the light theme); a stored text that is JSON is
  taken as parsed. After \<open>setValue\<close> the state holds the new value whether or not the
  write succeeds, and a failed write leaves the store as it was.
\<close>

theorem storage_defaults_and_swallowed_writes:
  "(r = ReadThrows \<or> r = ReadNull \<or> r = ReadString [] \<or> (\<exists>t. r = ReadString t \<and> parse t = None)
      \<longrightarrow> useLocalStorage_init parse r initialValue = initialValue)
   \<and> (t \<noteq> [] \<and> parse t = Some v' \<longrightarrow> useLocalStorage_init parse (ReadString t) initialValue = v')
   \<and> fst (setValue stringify setItem key v (old, st)) = v
   \<and> (setItem key (stringify v) st = None
        \<longrightarrow> setValue stringify setItem key v (old, st) = (v, st))"
  by (auto simp: useLocalStorage_init_def setValue_def writeEffect_def)

theorem storage_defaults_and_swallowed_writes_witness:
  "useLocalStorage_init parse_null_only ReadNull initialScores = initialScores
   \<and> useLocalStorage_init parse_null_only (ReadString ''{oops'') initialTheme = initialTheme
   \<and> useLocalStorage_init parse_null_only (ReadString ''null'') initialTheme = JNull
   \<and> setValue (\<lambda>v. ''1'') setItem_fails ''ttt-theme'' (JStr ''dark'') (JStr ''light'', [])
       = (JStr ''dark'', [])"
proof -
  have p: "parse_null_only ''{oops'' = None" by (simp add: parse_null_only_def)
  have q: "''null'' \<noteq> [] \<and> parse_null_only ''null'' = Some JNull"
    by (simp add: parse_null_only_def)
  have w: "setItem_fails ''ttt-theme'' ((\<lambda>v. ''1'') (JStr ''dark'')) [] = None"
    by (simp add: setItem_fails_def)
  show ?thesis
    using storage_defaults_and_swallowed_writes
           [of ReadNull parse_null_only initialScores "''null''" JNull "\<lambda>v. ''1''"
               setItem_fails "''ttt-theme''" "JStr ''dark''" "JStr ''light''" "[]"]
          storage_defaults_and_swallowed_writes
           [of "ReadString ''{oops''" parse_null_only initialTheme "''null''" JNull
               "\<lambda>v. ''1''" setItem_fails "''ttt-theme''" "JStr ''dark''" "JStr ''light''" "[]"]
          p q w
    by blast
qed

text \<open>
  C8, as the claim states it (a malformed stored value gives the default), fails for the
  stored text \<open>null\<close>: it is JSON but not a scores object or a theme name, and the state
  starts as \<open>null\<close> instead of the zero scores or the light theme.
\<close>

theorem stored_null_is_not_defaulted:
  "parse_null_only ''null'' = Some JNull
   \<and> useLocalStorage_init parse_null_only (ReadString ''null'') initialScores = JNull
   \<and> useLocalStorage_init parse_null_only (ReadString ''null'') initialScores \<noteq> initialScores
   \<and> useLocalStorage_init parse_null_only (ReadString ''null'') initialTheme \<noteq> initialTheme"
  by (simp add: useLocalStorage_init_def parse_null_only_def initialScores_def initialTheme_def)

section \<open>Theme toggle\<close>

text \<open>
  C9. The toggle swaps the two theme values: light becomes dark and dark becomes light,
  so two toggles from either value give the value back; from the default light theme
  the first toggleTheme yields dark and the second yields light.
\<close>

theorem toggle_swaps:
  "toggle ''light'' = ''dark'' \<and> toggle ''dark'' = ''light''
   \<and> toggle (toggle ''light'') = ''light'' \<and> toggle (toggle ''dark'') = ''dark''
   \<and> theme (step ToggleTheme (mount sc ''light'')) = ''dark''
   \<and> theme (step ToggleTheme (step ToggleTheme (mount sc ''light''))) = ''light''"
  by (simp add: toggle_def toggleTheme_def commit_def mount_def scoreEffect_def)

theorem toggle_swaps_witness:
  "theme (step ToggleTheme (mount zero_scores ''light'')) = ''dark''
   \<and> theme (step ToggleTheme (step ToggleTheme (mount zero_scores ''light''))) = ''light''"
  using toggle_swaps [of zero_scores] by blast

end
